theory Spec2Isabelle
  imports Complex_Main "HOL-Library.Word"
begin

section \<open>Numbers\<close>

text \<open>
  The C++ works on \<open>unsigned int\<close> (32 bits, wrapping), on \<open>int\<close> loop counters and on
  \<open>float\<close>/\<open>double\<close>. An \<open>unsigned int\<close> is a \<open>32 word\<close>. A floating-point value is
  modelled in exact arithmetic: it is \<open>Some r\<close> for a real \<open>r\<close>, or \<open>None\<close> when it is no
  finite real (an infinity or a NaN). Rounding and overflow of the binary formats are
  outside the model, the underflow of \<open>exp\<close> is modelled apart (\<open>dexp_underflow\<close>), and
  every operation on \<open>None\<close> gives \<open>None\<close>.
\<close>

type_synonym uint = "32 word"
type_synonym double = "real option"

definition dadd :: "double \<Rightarrow> double \<Rightarrow> double" where
  "dadd x y = (case x of None \<Rightarrow> None | Some a \<Rightarrow> (case y of None \<Rightarrow> None | Some c \<Rightarrow> Some (a + c)))"

definition dmul :: "double \<Rightarrow> double \<Rightarrow> double" where
  "dmul x y = (case x of None \<Rightarrow> None | Some a \<Rightarrow> (case y of None \<Rightarrow> None | Some c \<Rightarrow> Some (a * c)))"

text \<open>Division: a zero divisor gives an infinity or a NaN.\<close>

definition ddiv :: "double \<Rightarrow> double \<Rightarrow> double" where
  "ddiv x y = (case x of None \<Rightarrow> None | Some a \<Rightarrow>
     (case y of None \<Rightarrow> None | Some c \<Rightarrow> if c = 0 then None else Some (a / c)))"

text \<open>\<open>log\<close>: minus infinity at 0, NaN below.\<close>

definition dlog :: "double \<Rightarrow> double" where
  "dlog x = (case x of None \<Rightarrow> None | Some a \<Rightarrow> if 0 < a then Some (ln a) else None)"

definition dexp :: "double \<Rightarrow> double" where
  "dexp x = (case x of None \<Rightarrow> None | Some a \<Rightarrow> Some (exp a))"


text \<open>
  \<open>pow\<close>: a positive base takes any exponent; any base takes an integral exponent, except
  that 0 to a negative power is infinite; 0 to a positive power is 0; a negative base to a
  fractional power is a NaN.
\<close>

definition dpow :: "double \<Rightarrow> double \<Rightarrow> double" where
  "dpow x y = (case x of None \<Rightarrow> None | Some a \<Rightarrow>
     (case y of None \<Rightarrow> None | Some e \<Rightarrow>
        if 0 < a then Some (a powr e)
        else if e = of_int \<lfloor>e\<rfloor> then (if a = 0 \<and> e < 0 then None else Some (a powi \<lfloor>e\<rfloor>))
        else if a = 0 \<and> 0 < e then Some 0
        else None))"

text \<open>Conversion of an \<open>unsigned int\<close> to floating point.\<close>

definition of_uint :: "uint \<Rightarrow> double" where
  "of_uint w = Some (real (unat w))"

section \<open>The fit function base class\<close>

text \<open>
  Modelled from the spec: the base class \<open>TF1\<close> belongs to the fitting library and is not
  part of the sources. The spec (sections 3 and 4.1) gives its state: a parameter vector
  and a parallel mask of fixed parameters, both of the length handed to the constructor,
  "all initialized to zero/free". \<open>SetParameter\<close> stores a value, \<open>FixParameter\<close> stores it
  and marks the entry fixed, \<open>GetParameter\<close> reads. The index is an \<open>Int_t\<close>. A store at an
  index outside the vector changes no entry: this is what the spec's "the source silently
  no-ops" (section 7) for \<open>SetResonance\<close> rests on at \<open>resonanceId = numResonances\<close>, where
  the guard of \<open>SetResonance\<close> lets the call through. So that such a call stays visible,
  the store keeps the indices it refused, in the order of the calls. A read outside the
  vector has no value.
\<close>

record TF1 =
  parameters :: "double list"
  fixedMask :: "bool list"
  refused :: "int list"

definition in_range :: "'a TF1_scheme \<Rightarrow> int \<Rightarrow> bool" where
  "in_range f ipar \<longleftrightarrow> 0 \<le> ipar \<and> ipar < int (length (parameters f))"

definition SetParameter :: "int \<Rightarrow> double \<Rightarrow> 'a TF1_scheme \<Rightarrow> 'a TF1_scheme" where
  "SetParameter ipar v f =
     (if in_range f ipar then f\<lparr>parameters := (parameters f)[nat ipar := v]\<rparr>
      else f\<lparr>refused := refused f @ [ipar]\<rparr>)"

definition FixParameter :: "int \<Rightarrow> double \<Rightarrow> 'a TF1_scheme \<Rightarrow> 'a TF1_scheme" where
  "FixParameter ipar v f =
     (if in_range f ipar
      then f\<lparr>parameters := (parameters f)[nat ipar := v],
              fixedMask := (fixedMask f)[nat ipar := True]\<rparr>
      else f\<lparr>refused := refused f @ [ipar]\<rparr>)"

definition GetParameter :: "'a TF1_scheme \<Rightarrow> int \<Rightarrow> double" where
  "GetParameter f ipar = (if in_range f ipar then parameters f ! nat ipar else None)"

definition IsFixed :: "'a TF1_scheme \<Rightarrow> int \<Rightarrow> bool" where
  "IsFixed f ipar \<longleftrightarrow>
     in_range f ipar \<and> nat ipar < length (fixedMask f) \<and> fixedMask f ! nat ipar"

section \<open>ReaclibRate\<close>

record ReaclibRate = TF1 +
  numResonances :: uint
  z1 :: uint
  z2 :: uint
  mu_amu :: real

definition b_const :: real where
  "b_const = 7831800000"

definition d_const :: real where
  "d_const = 153940000000"

text \<open>The seed of the \<open>a0\<close> of a resonance block: \<open>log(d_ * pow(mu_amu_, -3./2.))\<close>.\<close>

definition resonance_a0 :: "real \<Rightarrow> double" where
  "resonance_a0 mu = dlog (dmul (Some d_const) (dpow (Some mu) (Some (- 3 / 2))))"

text \<open>The inner loop of the constructor: \<open>for (int j=2;j<=5;j++) FixParameter(7*(i+1)+j, 0)\<close>.\<close>

function fix_loop :: "int \<Rightarrow> uint \<Rightarrow> ReaclibRate \<Rightarrow> ReaclibRate" where
  "fix_loop j i m =
     (if j \<le> 5
      then fix_loop (j + 1) i (FixParameter (sint (7 * (i + 1) + word_of_int j)) (Some 0) m)
      else m)"
  by pat_completeness auto
termination
  by (relation "measure (\<lambda>(j, i, m). nat (6 - j))") auto

declare fix_loop.simps [simp del]

text \<open>One pass of the outer loop of the constructor, for the resonance \<open>i\<close>.\<close>

definition resonance_block :: "uint \<Rightarrow> ReaclibRate \<Rightarrow> ReaclibRate" where
  "resonance_block i m =
     FixParameter (sint (7 * (i + 1) + 6)) (Some (- 3 / 2))
       (fix_loop 2 i
         (SetParameter (sint (7 * (i + 1) + 1)) (Some (- 116045 / 10000))
           (SetParameter (sint (7 * (i + 1) + 0)) (resonance_a0 (mu_amu m)) m)))"

lemma numResonances_SetParameter [simp]:
  "numResonances (SetParameter ipar v m) = numResonances m"
  by (simp add: SetParameter_def)

lemma numResonances_FixParameter [simp]:
  "numResonances (FixParameter ipar v m) = numResonances m"
  by (simp add: FixParameter_def)

lemma numResonances_fix_loop [simp]: "numResonances (fix_loop j i m) = numResonances m"
  by (induction j i m rule: fix_loop.induct) (simp add: fix_loop.simps)

lemma numResonances_resonance_block [simp]:
  "numResonances (resonance_block i m) = numResonances m"
  by (simp add: resonance_block_def)

lemma unat_inc: "i < n \<Longrightarrow> unat (i + 1) = unat i + 1" for i n :: uint
  by unat_arith

text \<open>The outer loop of the constructor: \<open>for (unsigned int i=0;i<numResonances_;i++)\<close>.\<close>

function resonance_loop :: "uint \<Rightarrow> ReaclibRate \<Rightarrow> ReaclibRate" where
  "resonance_loop i m =
     (if i < numResonances m then resonance_loop (i + 1) (resonance_block i m) else m)"
  by pat_completeness auto
termination
  by (relation "measure (\<lambda>(i, m). unat (numResonances m) - unat i)")
     (auto simp: unat_inc word_less_nat_alt)

declare resonance_loop.simps [simp del]

text \<open>
  The non-resonant seed \<open>b_ * pow(z1_ * z2_ * mu_amu_, 1./3.)\<close> shared by the constructor
  and \<open>SetSFactor\<close>; the product \<open>z1_ * z2_\<close> is an \<open>unsigned int\<close> product.
\<close>

definition nonresonant_scale :: "uint \<Rightarrow> uint \<Rightarrow> real \<Rightarrow> double" where
  "nonresonant_scale za zb mu =
     dmul (Some b_const) (dpow (dmul (of_uint (za * zb)) (Some mu)) (Some (1 / 3)))"

text \<open>
  The constructor. \<open>TF1\<close> takes the number of parameters \<open>7 * (numResonances+1)\<close>, an
  \<open>unsigned int\<close> expression, as an \<open>Int_t\<close>. The model follows the constructor where
  this count reaches \<open>TF1\<close> as it is written (no wrap-around, and it fits \<open>Int_t\<close>);
  otherwise the object depends on what the library does with a wrapped count, and the
  model gives \<open>None\<close>.
\<close>

definition ReaclibRate_new :: "uint \<Rightarrow> uint \<Rightarrow> uint \<Rightarrow> real \<Rightarrow> ReaclibRate option" where
  "ReaclibRate_new n za zb mu =
     (if 7 * (unat n + 1) < 2 ^ 31
      then
        let npar = nat (sint (7 * (n + 1)));
            m0 = \<lparr>parameters = replicate npar (Some 0), fixedMask = replicate npar False, refused = [],
                  numResonances = n, z1 = za, z2 = zb, mu_amu = mu\<rparr>;
            m1 = SetParameter 0 (dlog (nonresonant_scale (z1 m0) (z2 m0) (mu_amu m0))) m0;
            m2 = FixParameter 1 (Some 0) m1;
            m3 = FixParameter 2
                   (dmul (Some (- 42486 / 10000))
                      (dpow (dmul (dpow (of_uint (z1 m2 * z2 m2)) (Some 2)) (Some (mu_amu m2)))
                         (Some (1 / 3)))) m2;
            m4 = FixParameter 6 (Some (- 2 / 3)) m3
        in Some (resonance_loop 0 m4)
      else None)"

definition SetSFactor :: "real \<Rightarrow> ReaclibRate \<Rightarrow> ReaclibRate" where
  "SetSFactor s0_MeVb m =
     FixParameter 0
       (dlog (dmul (nonresonant_scale (z1 m) (z2 m) (mu_amu m)) (Some s0_MeVb))) m"

definition SetResonance :: "uint \<Rightarrow> real \<Rightarrow> real \<Rightarrow> ReaclibRate \<Rightarrow> ReaclibRate" where
  "SetResonance resonanceId energy strength m =
     (if resonanceId \<le> numResonances m
      then FixParameter (sint (7 * (resonanceId + 1) + 1)) (Some (- 116045 / 10000 * energy))
             (FixParameter (sint (7 * (resonanceId + 1) + 0))
                (dlog (dmul (dmul (Some d_const) (dpow (Some (mu_amu m)) (Some (- 3 / 2))))
                   (Some strength))) m)
      else m)"

definition GetReducedMass :: "ReaclibRate \<Rightarrow> double" where
  "GetReducedMass m =
     ddiv (dpow (ddiv (GetParameter m 2) (Some (- 42486 / 10000))) (Some 3))
          (dpow (of_uint (z1 m * z2 m)) (Some 2))"

definition GetSFactor :: "ReaclibRate \<Rightarrow> double" where
  "GetSFactor m =
     (let mu = GetReducedMass m
      in ddiv (ddiv (dexp (GetParameter m 0)) (Some b_const))
              (dpow (dmul (of_uint (z1 m * z2 m)) mu) (Some (1 / 3))))"

definition GetResonanceEnergy :: "ReaclibRate \<Rightarrow> uint \<Rightarrow> double" where
  "GetResonanceEnergy m resonanceId =
     (if resonanceId > numResonances m then Some (- 1)
      else ddiv (GetParameter m (sint (7 * resonanceId + 1))) (Some (- 116045 / 10000)))"

definition GetResonanceStrength :: "ReaclibRate \<Rightarrow> uint \<Rightarrow> double" where
  "GetResonanceStrength m resonanceId =
     (if resonanceId > numResonances m then Some (- 1)
      else let mu = GetReducedMass m
           in ddiv (ddiv (dexp (GetParameter m (sint (7 * resonanceId + 0)))) (Some d_const))
                   (dpow mu (Some (- 3 / 2))))"

text \<open>
  \<open>Evaluate\<close> reads the array \<open>par\<close> it is given, not the object's own parameters. A read
  past the end of that array has no value.
\<close>

definition par_at :: "double list \<Rightarrow> uint \<Rightarrow> double" where
  "par_at par k = (if unat k < length par then par ! unat k else None)"

function component_loop :: "int \<Rightarrow> uint \<Rightarrow> real \<Rightarrow> double list \<Rightarrow> double \<Rightarrow> double" where
  "component_loop j i t9 par component =
     (if j \<le> 5
      then component_loop (j + 1) i t9 par
             (dadd component
                (dmul (par_at par (7 * i + word_of_int j))
                      (dpow (Some t9) (Some ((2 * of_int j - 5) / 3)))))
      else component)"
  by pat_completeness auto
termination
  by (relation "measure (\<lambda>(j, i, t9, par, c). nat (6 - j))") auto

declare component_loop.simps [simp del]

text \<open>
  The outer loop of \<open>Evaluate\<close>. The exponential \<open>ex\<close> of the arithmetic is a parameter
  of the loop: \<open>dexp\<close> in exact arithmetic, \<open>dexp_underflow\<close> with the underflow of the
  binary format.
\<close>

function rate_loop ::
  "(double \<Rightarrow> double) \<Rightarrow> uint \<Rightarrow> ReaclibRate \<Rightarrow> real \<Rightarrow> double list \<Rightarrow> double \<Rightarrow> double" where
  "rate_loop ex i m t9 par reacRate =
     (if i < numResonances m + 1
      then rate_loop ex (i + 1) m t9 par
             (dadd reacRate
                (ex (component_loop 1 i t9 par
                   (dadd (par_at par (7 * i + 0))
                         (dmul (par_at par (7 * i + 6)) (dlog (Some t9)))))))
      else reacRate)"
  by pat_completeness auto
termination
  by (relation "measure (\<lambda>(ex, i, m, t9, par, r). unat (numResonances m + 1) - unat i)")
     (auto simp: unat_inc word_less_nat_alt)

declare rate_loop.simps [simp del]

definition Evaluate_with ::
  "(double \<Rightarrow> double) \<Rightarrow> ReaclibRate \<Rightarrow> real \<Rightarrow> double list \<Rightarrow> double" where
  "Evaluate_with ex m t9 par = rate_loop ex 0 m t9 par (Some 0)"

text \<open>\<open>Evaluate\<close> in the exact arithmetic of this theory.\<close>

definition Evaluate :: "ReaclibRate \<Rightarrow> real \<Rightarrow> double list \<Rightarrow> double" where
  "Evaluate m t9 par = Evaluate_with dexp m t9 par"

text \<open>
  The data model of the spec (section 3): the parameter vector and the mask have the
  length \<open>7 * (numResonances + 1)\<close>. \<open>TF1\<close> counts its parameters in an \<open>Int_t\<close>.
\<close>

definition valid_model :: "ReaclibRate \<Rightarrow> bool" where
  "valid_model m \<longleftrightarrow>
     length (parameters m) = 7 * (unat (numResonances m) + 1) \<and>
     length (fixedMask m) = length (parameters m) \<and>
     length (parameters m) < 2 ^ 31"

text \<open>A sequence of \<open>SetSFactor\<close> and \<open>SetResonance\<close> calls on an object.\<close>

datatype setter_call = SetSFactor_call real | SetResonance_call uint real real

fun apply_call :: "setter_call \<Rightarrow> ReaclibRate \<Rightarrow> ReaclibRate" where
  "apply_call (SetSFactor_call s0_MeVb) m = SetSFactor s0_MeVb m"
| "apply_call (SetResonance_call resonanceId energy strength) m =
     SetResonance resonanceId energy strength m"

definition apply_calls :: "setter_call list \<Rightarrow> ReaclibRate \<Rightarrow> ReaclibRate" where
  "apply_calls cs m = fold apply_call cs m"

text \<open>
  The invariant of the spec (section 3): the \<open>a6\<close> of the non-resonant block (index 6)
  holds \<open>-2/3\<close> and is fixed, the \<open>a6\<close> of every resonance block \<open>i\<close> (index
  \<open>7 * (i + 1) + 6\<close>) holds \<open>-3/2\<close> and is fixed.
\<close>

definition a6_fixed :: "ReaclibRate \<Rightarrow> bool" where
  "a6_fixed m \<longleftrightarrow>
     GetParameter m 6 = Some (- 2 / 3) \<and> IsFixed m 6 \<and>
     (\<forall>i < unat (numResonances m).
        GetParameter m (int (7 * (i + 1) + 6)) = Some (- 3 / 2) \<and>
        IsFixed m (int (7 * (i + 1) + 6)))"

text \<open>
  The rate as the spec writes it (section 4.1, Evaluate): with \<open>a i j\<close> the parameter at
  index \<open>7 * i + j\<close>, the component of block \<open>i\<close> is
  \<open>a(i,0) + a(i,6) * ln(t9) + sum over j = 1..5 of a(i,j) * t9^((2j-5)/3)\<close>, and the rate
  is the sum over the blocks \<open>0..numResonances\<close> of the exponentials of the components.
\<close>

definition component_spec :: "real list \<Rightarrow> nat \<Rightarrow> real \<Rightarrow> real" where
  "component_spec ps i t9 =
     ps ! (7 * i + 0) + ps ! (7 * i + 6) * ln t9 +
     (\<Sum>j = 1..5. ps ! (7 * i + j) * t9 powr ((2 * real j - 5) / 3))"

definition Evaluate_spec :: "nat \<Rightarrow> real \<Rightarrow> real list \<Rightarrow> real" where
  "Evaluate_spec numRes t9 ps = (\<Sum>i = 0..numRes. exp (component_spec ps i t9))"

section \<open>Index arithmetic and the parameter store\<close>

lemma sint_small: "unat w < 2 ^ 31 \<Longrightarrow> sint w = int (unat w)" for w :: uint
proof -
  assume a: "unat w < 2 ^ 31"
  from a have "uint w < 2 ^ 31"
    by (metis of_nat_less_numeral_power_cancel_iff uint_nat)
  moreover have "- (2 ^ 31) \<le> uint w"
    by (rule order_trans [of _ 0]) simp_all
  ultimately have "sint w = uint w"
    by (simp add: sint_uint signed_take_bit_int_eq_self)
  then show ?thesis by simp
qed

lemma sint_block:
  assumes "unat i \<le> unat n" and "7 * (unat n + 1) < 2 ^ 31"
  shows "sint (7 * (i + 1) :: uint) = int (7 * (unat i + 1))"
proof -
  have "unat (7 * (i + 1) :: uint) = 7 * (unat i + 1)"
    using assms by (simp add: unat_word_ariths)
  moreover have "7 * (unat i + 1) < 2 ^ 31" using assms by simp
  ultimately show ?thesis by (simp add: sint_small)
qed

lemma sint_block_plus:
  assumes "unat i < unat n" and "7 * (unat n + 1) < 2 ^ 31" and "unat k \<le> 6"
  shows "sint (7 * (i + 1) + k :: uint) = int (7 * (unat i + 1) + unat k)"
proof -
  have "unat (7 * (i + 1) + k :: uint) = 7 * (unat i + 1) + unat k"
    using assms by (simp add: unat_word_ariths)
  moreover have "7 * (unat i + 1) + unat k < 2 ^ 31" using assms by simp
  ultimately show ?thesis by (simp add: sint_small)
qed

lemma sint_block_last:
  assumes "7 * (unat n + 1) < 2 ^ 31"
  shows "sint (7 * (n + 1) + 1 :: uint) = int (7 * (unat n + 1) + 1)"
proof -
  have b: "7 * (unat n + 1) + 1 < (2 ^ 31 :: nat)" using assms by simp presburger
  then have "unat (7 * (n + 1) + 1 :: uint) = 7 * (unat n + 1) + 1"
    by (simp add: unat_word_ariths)
  with b show ?thesis by (simp add: sint_small)
qed

lemma fix_loop_unroll:
  "fix_loop 2 i m =
     FixParameter (sint (7 * (i + 1) + 5)) (Some 0)
       (FixParameter (sint (7 * (i + 1) + 4)) (Some 0)
         (FixParameter (sint (7 * (i + 1) + 3)) (Some 0)
           (FixParameter (sint (7 * (i + 1) + 2)) (Some 0) m)))"
  by (simp add: fix_loop.simps)

lemma length_SetParameter [simp]:
  "length (parameters (SetParameter ipar v f)) = length (parameters f)"
  "length (fixedMask (SetParameter ipar v f)) = length (fixedMask f)"
  by (simp_all add: SetParameter_def)

lemma length_FixParameter [simp]:
  "length (parameters (FixParameter ipar v f)) = length (parameters f)"
  "length (fixedMask (FixParameter ipar v f)) = length (fixedMask f)"
  by (simp_all add: FixParameter_def)

lemma fields_SetParameter [simp]:
  "z1 (SetParameter ipar v m) = z1 m"
  "z2 (SetParameter ipar v m) = z2 m"
  "mu_amu (SetParameter ipar v m) = mu_amu m"
  by (simp_all add: SetParameter_def)

lemma fields_FixParameter [simp]:
  "z1 (FixParameter ipar v m) = z1 m"
  "z2 (FixParameter ipar v m) = z2 m"
  "mu_amu (FixParameter ipar v m) = mu_amu m"
  by (simp_all add: FixParameter_def)

lemma SetParameter_at:
  "k < length (parameters f) \<Longrightarrow>
   parameters (SetParameter (int k) v f) = (parameters f)[k := v] \<and>
   fixedMask (SetParameter (int k) v f) = fixedMask f"
  by (simp add: SetParameter_def in_range_def)

lemma FixParameter_at:
  "k < length (parameters f) \<Longrightarrow>
   parameters (FixParameter (int k) v f) = (parameters f)[k := v] \<and>
   fixedMask (FixParameter (int k) v f) = (fixedMask f)[k := True] \<and>
   refused (FixParameter (int k) v f) = refused f"
  by (simp add: FixParameter_def in_range_def)

lemma FixParameter_outside:
  "length (parameters f) \<le> k \<Longrightarrow>
   parameters (FixParameter (int k) v f) = parameters f \<and>
   fixedMask (FixParameter (int k) v f) = fixedMask f \<and>
   refused (FixParameter (int k) v f) = refused f @ [int k]"
  by (simp add: FixParameter_def in_range_def)


lemma block_index:
  assumes "valid_model m" and "i < numResonances m"
  shows "sint (7 * (i + 1) + 0 :: uint) = int (7 * (unat i + 1))"
    and "sint (7 * (i + 1) + 1 :: uint) = int (7 * (unat i + 1) + 1)"
    and "sint (7 * (i + 1) + 2 :: uint) = int (7 * (unat i + 1) + 2)"
    and "sint (7 * (i + 1) + 3 :: uint) = int (7 * (unat i + 1) + 3)"
    and "sint (7 * (i + 1) + 4 :: uint) = int (7 * (unat i + 1) + 4)"
    and "sint (7 * (i + 1) + 5 :: uint) = int (7 * (unat i + 1) + 5)"
    and "sint (7 * (i + 1) + 6 :: uint) = int (7 * (unat i + 1) + 6)"
proof -
  let ?n = "numResonances m"
  from assms have lt: "unat i < unat ?n" and fit: "7 * (unat ?n + 1) < 2 ^ 31"
    by (simp_all add: word_less_nat_alt valid_model_def)
  show "sint (7 * (i + 1) + 0 :: uint) = int (7 * (unat i + 1))"
    using sint_block_plus [OF lt fit, of 0] by simp
  show "sint (7 * (i + 1) + 1 :: uint) = int (7 * (unat i + 1) + 1)"
    using sint_block_plus [OF lt fit, of 1] by simp
  show "sint (7 * (i + 1) + 2 :: uint) = int (7 * (unat i + 1) + 2)"
    using sint_block_plus [OF lt fit, of 2] by simp
  show "sint (7 * (i + 1) + 3 :: uint) = int (7 * (unat i + 1) + 3)"
    using sint_block_plus [OF lt fit, of 3] by simp
  show "sint (7 * (i + 1) + 4 :: uint) = int (7 * (unat i + 1) + 4)"
    using sint_block_plus [OF lt fit, of 4] by simp
  show "sint (7 * (i + 1) + 5 :: uint) = int (7 * (unat i + 1) + 5)"
    using sint_block_plus [OF lt fit, of 5] by simp
  show "sint (7 * (i + 1) + 6 :: uint) = int (7 * (unat i + 1) + 6)"
    using sint_block_plus [OF lt fit, of 6] by simp
qed

lemma resonance_block_lists:
  assumes v: "valid_model m" and i: "i < numResonances m"
  shows "parameters (resonance_block i m) =
           (parameters m)[7 * (unat i + 1) := resonance_a0 (mu_amu m),
              7 * (unat i + 1) + 1 := Some (- 116045 / 10000),
              7 * (unat i + 1) + 2 := Some 0, 7 * (unat i + 1) + 3 := Some 0,
              7 * (unat i + 1) + 4 := Some 0, 7 * (unat i + 1) + 5 := Some 0,
              7 * (unat i + 1) + 6 := Some (- 3 / 2)]"
    and "fixedMask (resonance_block i m) =
           (fixedMask m)[7 * (unat i + 1) + 2 := True, 7 * (unat i + 1) + 3 := True,
              7 * (unat i + 1) + 4 := True, 7 * (unat i + 1) + 5 := True,
              7 * (unat i + 1) + 6 := True]"
proof -
  let ?n = "numResonances m"
  from i have lt: "unat i < unat ?n" by (simp add: word_less_nat_alt)
  from v have len: "length (parameters m) = 7 * (unat ?n + 1)"
    by (simp add: valid_model_def)
  from lt len have inb: "7 * (unat i + 1) + 6 < length (parameters m)" by simp
  have eq: "resonance_block i m =
      FixParameter (int (7 * (unat i + 1) + 6)) (Some (- 3 / 2))
       (FixParameter (int (7 * (unat i + 1) + 5)) (Some 0)
         (FixParameter (int (7 * (unat i + 1) + 4)) (Some 0)
           (FixParameter (int (7 * (unat i + 1) + 3)) (Some 0)
             (FixParameter (int (7 * (unat i + 1) + 2)) (Some 0)
               (SetParameter (int (7 * (unat i + 1) + 1)) (Some (- 116045 / 10000))
                 (SetParameter (int (7 * (unat i + 1))) (resonance_a0 (mu_amu m)) m))))))"
    unfolding resonance_block_def fix_loop_unroll block_index [OF v i] ..
  show "parameters (resonance_block i m) =
           (parameters m)[7 * (unat i + 1) := resonance_a0 (mu_amu m),
              7 * (unat i + 1) + 1 := Some (- 116045 / 10000),
              7 * (unat i + 1) + 2 := Some 0, 7 * (unat i + 1) + 3 := Some 0,
              7 * (unat i + 1) + 4 := Some 0, 7 * (unat i + 1) + 5 := Some 0,
              7 * (unat i + 1) + 6 := Some (- 3 / 2)]"
    unfolding eq using inb
    by (simp add: SetParameter_at FixParameter_at del: of_nat_add of_nat_mult)
  show "fixedMask (resonance_block i m) =
           (fixedMask m)[7 * (unat i + 1) + 2 := True, 7 * (unat i + 1) + 3 := True,
              7 * (unat i + 1) + 4 := True, 7 * (unat i + 1) + 5 := True,
              7 * (unat i + 1) + 6 := True]"
    unfolding eq using inb
    by (simp add: SetParameter_at FixParameter_at del: of_nat_add of_nat_mult)
qed

section \<open>The constructor's loop\<close>

lemma valid_model_resonance_block:
  "valid_model m \<Longrightarrow> i < numResonances m \<Longrightarrow> valid_model (resonance_block i m)"
  by (simp add: valid_model_def resonance_block_lists [unfolded valid_model_def])

lemma fields_fix_loop [simp]:
  "z1 (fix_loop j i m) = z1 m" "z2 (fix_loop j i m) = z2 m" "mu_amu (fix_loop j i m) = mu_amu m"
  by (induction j i m rule: fix_loop.induct, simp add: fix_loop.simps)+

lemma fields_resonance_block [simp]:
  "z1 (resonance_block i m) = z1 m" "z2 (resonance_block i m) = z2 m"
  "mu_amu (resonance_block i m) = mu_amu m"
  by (simp_all add: resonance_block_def)

lemma fields_resonance_loop [simp]:
  "numResonances (resonance_loop i m) = numResonances m"
  "z1 (resonance_loop i m) = z1 m" "z2 (resonance_loop i m) = z2 m"
  "mu_amu (resonance_loop i m) = mu_amu m"
  by (induction i m rule: resonance_loop.induct, simp add: resonance_loop.simps)+

lemma valid_model_resonance_loop:
  "valid_model m \<Longrightarrow> valid_model (resonance_loop i m)"
proof (induction i m rule: resonance_loop.induct)
  case (1 i m)
  show ?case
  proof (cases "i < numResonances m")
    case True
    with 1 show ?thesis
      by (subst resonance_loop.simps) (simp add: valid_model_resonance_block)
  next
    case False
    with 1 show ?thesis by (subst resonance_loop.simps) simp
  qed
qed

text \<open>A pass of the loop leaves every entry below its block as it was.\<close>

lemma resonance_block_below:
  assumes "valid_model m" and "i < numResonances m" and "k < 7 * (unat i + 1)"
  shows "parameters (resonance_block i m) ! k = parameters m ! k"
    and "fixedMask (resonance_block i m) ! k = fixedMask m ! k"
  using assms by (simp_all add: resonance_block_lists)

lemma resonance_loop_below:
  "valid_model m \<Longrightarrow> k < 7 * (unat i + 1) \<Longrightarrow>
   parameters (resonance_loop i m) ! k = parameters m ! k \<and>
   fixedMask (resonance_loop i m) ! k = fixedMask m ! k"
proof (induction i m rule: resonance_loop.induct)
  case (1 i m)
  show ?case
  proof (cases "i < numResonances m")
    case True
    then have "unat (i + 1) = unat i + 1" by (rule unat_inc)
    with 1 True show ?thesis
      by (subst (1 2) resonance_loop.simps)
         (simp add: valid_model_resonance_block resonance_block_below)
  next
    case False
    then show ?thesis by (subst (1 2) resonance_loop.simps) simp
  qed
qed

lemma resonance_block_a6:
  assumes "valid_model m" and "i < numResonances m"
  shows "parameters (resonance_block i m) ! (7 * (unat i + 1) + 6) = Some (- 3 / 2)"
    and "fixedMask (resonance_block i m) ! (7 * (unat i + 1) + 6) = True"
proof -
  from assms have "7 * (unat i + 1) + 6 < length (parameters m)"
    and "length (fixedMask m) = length (parameters m)"
    by (simp_all add: valid_model_def word_less_nat_alt)
  then show "parameters (resonance_block i m) ! (7 * (unat i + 1) + 6) = Some (- 3 / 2)"
    and "fixedMask (resonance_block i m) ! (7 * (unat i + 1) + 6) = True"
    using assms by (simp_all add: resonance_block_lists)
qed

lemma resonance_loop_a6:
  "valid_model m \<Longrightarrow> unat i \<le> j \<Longrightarrow> j < unat (numResonances m) \<Longrightarrow>
   parameters (resonance_loop i m) ! (7 * (j + 1) + 6) = Some (- 3 / 2) \<and>
   fixedMask (resonance_loop i m) ! (7 * (j + 1) + 6) = True"
proof (induction i m rule: resonance_loop.induct)
  case (1 i m)
  from "1.prems" have lt: "i < numResonances m" by (simp add: word_less_nat_alt)
  then have inc: "unat (i + 1) = unat i + 1" by (rule unat_inc)
  from "1.prems"(1) lt have v': "valid_model (resonance_block i m)"
    by (rule valid_model_resonance_block)
  have step: "resonance_loop i m = resonance_loop (i + 1) (resonance_block i m)"
    using lt by (subst resonance_loop.simps) simp
  show ?case
  proof (cases "j = unat i")
    case True
    have "7 * (j + 1) + 6 < 7 * (unat (i + 1) + 1)" using True inc by simp
    from resonance_loop_below [OF v' this] resonance_block_a6 [OF "1.prems"(1) lt] True
    show ?thesis unfolding step by simp
  next
    case False
    with "1.prems" inc have "unat (i + 1) \<le> j" by simp
    with "1.IH" [OF lt v'] "1.prems" show ?thesis unfolding step by simp
  qed
qed

section \<open>What the constructor leaves behind\<close>

lemma dops [simp]:
  "dadd (Some a) (Some c) = Some (a + c)"
  "dmul (Some a) (Some c) = Some (a * c)"
  "dexp (Some a) = Some (exp a)"
  "dmul x None = None" "dmul None y = None"
  "ddiv x None = None" "ddiv None y = None"
  "dpow None y = None" "dlog None = None" "dexp None = None"
  by (simp_all add: dadd_def dmul_def dexp_def ddiv_def dpow_def dlog_def split: option.splits)

lemma ddiv_Some: "c \<noteq> 0 \<Longrightarrow> ddiv (Some a) (Some c) = Some (a / c)"
  by (simp add: ddiv_def)

lemma ddiv_zero [simp]: "ddiv x (Some 0) = None"
  by (simp add: ddiv_def split: option.splits)

lemma dlog_Some: "0 < a \<Longrightarrow> dlog (Some a) = Some (ln a)"
  by (simp add: dlog_def)

lemma dpow_pos: "0 < a \<Longrightarrow> dpow (Some a) (Some e) = Some (a powr e)"
  by (simp add: dpow_def)

lemma SetParameter_first:
  "7 \<le> length (parameters f) \<Longrightarrow>
   parameters (SetParameter 0 v f) = (parameters f)[0 := v] \<and>
   fixedMask (SetParameter 0 v f) = fixedMask f"
  by (simp add: SetParameter_def in_range_def)

lemma construct_Some:
  "7 * (unat n + 1) < 2 ^ 31 \<Longrightarrow> \<exists>m. ReaclibRate_new n za zb mu = Some m"
  by (simp add: ReaclibRate_new_def Let_def)

lemma construct_None:
  "\<not> 7 * (unat n + 1) < 2 ^ 31 \<Longrightarrow> ReaclibRate_new n za zb mu = None"
  by (simp add: ReaclibRate_new_def)

lemma construct_props:
  assumes c: "ReaclibRate_new n za zb mu = Some m"
  shows "valid_model m"
    and "numResonances m = n" and "z1 m = za" and "z2 m = zb" and "mu_amu m = mu"
    and "parameters m ! 0 = dlog (nonresonant_scale za zb mu)"
    and "parameters m ! 1 = Some 0"
    and "parameters m ! 2 =
           dmul (Some (- 42486 / 10000))
             (dpow (dmul (dpow (of_uint (za * zb)) (Some 2)) (Some mu)) (Some (1 / 3)))"
    and "parameters m ! 6 = Some (- 2 / 3)" and "fixedMask m ! 6"
    and "\<And>i. i < unat n \<Longrightarrow> parameters m ! (7 * (i + 1) + 6) = Some (- 3 / 2) \<and>
           fixedMask m ! (7 * (i + 1) + 6)"
proof -
  from c have fit: "7 * (unat n + 1) < 2 ^ 31"
    by (simp add: ReaclibRate_new_def split: if_splits)
  have npar: "nat (sint (7 * (n + 1) :: uint)) = 7 * (unat n + 1)"
    by (simp only: sint_block [OF order_refl fit] nat_int)
  define m0 :: ReaclibRate where
    "m0 = \<lparr>parameters = replicate (7 * (unat n + 1)) (Some 0),
           fixedMask = replicate (7 * (unat n + 1)) False, refused = [],
           numResonances = n, z1 = za, z2 = zb, mu_amu = mu\<rparr>"
  define m4 where
    "m4 = FixParameter (int 6) (Some (- 2 / 3))
           (FixParameter (int 2)
              (dmul (Some (- 42486 / 10000))
                 (dpow (dmul (dpow (of_uint (za * zb)) (Some 2)) (Some mu)) (Some (1 / 3))))
              (FixParameter (int 1) (Some 0)
                 (SetParameter (int 0) (dlog (nonresonant_scale za zb mu)) m0)))"
  from c fit have m: "m = resonance_loop 0 m4"
    unfolding ReaclibRate_new_def Let_def npar by (simp add: m4_def m0_def)
  have len0: "length (parameters m0) = 7 * (unat n + 1)" "length (fixedMask m0) = 7 * (unat n + 1)"
    by (simp_all add: m0_def)
  have v4: "valid_model m4" and n4: "numResonances m4 = n"
    using fit by (simp_all add: valid_model_def m4_def len0) (simp_all add: m0_def)
  have f4: "z1 m4 = za" "z2 m4 = zb" "mu_amu m4 = mu"
    by (simp_all add: m4_def) (simp_all add: m0_def)
  have p4: "parameters m4 = (parameters m0)[0 := dlog (nonresonant_scale za zb mu), 1 := Some 0,
      2 := dmul (Some (- 42486 / 10000))
             (dpow (dmul (dpow (of_uint (za * zb)) (Some 2)) (Some mu)) (Some (1 / 3))),
      6 := Some (- 2 / 3)]"
    and x4: "fixedMask m4 = (fixedMask m0)[1 := True, 2 := True, 6 := True]"
    unfolding m4_def
    by (simp_all add: SetParameter_first SetParameter_at FixParameter_at len0
        del: of_nat_numeral of_nat_1 of_nat_Suc)
  show "valid_model m" unfolding m using v4 by (rule valid_model_resonance_loop)
  show "numResonances m = n" "z1 m = za" "z2 m = zb" "mu_amu m = mu"
    by (simp_all add: m n4 f4)
  have low: "parameters m ! k = parameters m4 ! k \<and> fixedMask m ! k = fixedMask m4 ! k"
    if "k < 7" for k
    unfolding m using that by (intro resonance_loop_below [OF v4]) simp
  show "parameters m ! 0 = dlog (nonresonant_scale za zb mu)"
    by (simp add: low p4 len0)
  show "parameters m ! 1 = Some 0" by (simp add: low p4 len0)
  show "parameters m ! 2 =
           dmul (Some (- 42486 / 10000))
             (dpow (dmul (dpow (of_uint (za * zb)) (Some 2)) (Some mu)) (Some (1 / 3)))"
    by (simp add: low p4 len0)
  show "parameters m ! 6 = Some (- 2 / 3)" by (simp add: low p4 len0)
  show "fixedMask m ! 6" by (simp add: low x4 len0)
  show "parameters m ! (7 * (i + 1) + 6) = Some (- 3 / 2) \<and> fixedMask m ! (7 * (i + 1) + 6)"
    if "i < unat n" for i
    unfolding m using that resonance_loop_a6 [OF v4, of 0 i] by (simp add: n4)
qed

section \<open>The setters on the parameter store\<close>

lemma fields_SetSFactor [simp]:
  "numResonances (SetSFactor s m) = numResonances m"
  "z1 (SetSFactor s m) = z1 m" "z2 (SetSFactor s m) = z2 m"
  "mu_amu (SetSFactor s m) = mu_amu m"
  by (simp_all add: SetSFactor_def)

lemma fields_SetResonance [simp]:
  "numResonances (SetResonance r e w m) = numResonances m"
  "z1 (SetResonance r e w m) = z1 m" "z2 (SetResonance r e w m) = z2 m"
  "mu_amu (SetResonance r e w m) = mu_amu m"
  by (simp_all add: SetResonance_def)

lemma valid_model_SetSFactor: "valid_model m \<Longrightarrow> valid_model (SetSFactor s m)"
  by (simp add: valid_model_def SetSFactor_def)

lemma valid_model_SetResonance: "valid_model m \<Longrightarrow> valid_model (SetResonance r e w m)"
  by (simp add: valid_model_def SetResonance_def)

lemma FixParameter_first:
  "7 \<le> length (parameters f) \<Longrightarrow>
   parameters (FixParameter 0 v f) = (parameters f)[0 := v] \<and>
   fixedMask (FixParameter 0 v f) = (fixedMask f)[0 := True]"
  by (auto simp add: FixParameter_def in_range_def)

lemma valid_model_length: "valid_model m \<Longrightarrow> 7 \<le> length (parameters m)"
  by (simp add: valid_model_def)

lemma SetSFactor_lists:
  assumes "valid_model m"
  shows "parameters (SetSFactor s m) =
           (parameters m)[0 := dlog (dmul (nonresonant_scale (z1 m) (z2 m) (mu_amu m)) (Some s))]"
    and "fixedMask (SetSFactor s m) = (fixedMask m)[0 := True]"
  using valid_model_length [OF assms] by (simp_all add: SetSFactor_def FixParameter_first)

lemma SetResonance_inside:
  assumes v: "valid_model m" and r: "r < numResonances m"
  shows "parameters (SetResonance r e w m) =
           (parameters m)[7 * (unat r + 1) :=
                dlog (dmul (dmul (Some d_const) (dpow (Some (mu_amu m)) (Some (- 3 / 2)))) (Some w)),
              7 * (unat r + 1) + 1 := Some (- 116045 / 10000 * e)]"
    and "fixedMask (SetResonance r e w m) =
           (fixedMask m)[7 * (unat r + 1) := True, 7 * (unat r + 1) + 1 := True]"
    and "refused (SetResonance r e w m) = refused m"
proof -
  from v r have inb: "7 * (unat r + 1) + 1 < length (parameters m)"
    by (simp add: valid_model_def word_less_nat_alt)
  from r have le: "r \<le> numResonances m" by simp
  have eq: "SetResonance r e w m =
      FixParameter (int (7 * (unat r + 1) + 1)) (Some (- 116045 / 10000 * e))
        (FixParameter (int (7 * (unat r + 1)))
           (dlog (dmul (dmul (Some d_const) (dpow (Some (mu_amu m)) (Some (- 3 / 2)))) (Some w))) m)"
    unfolding SetResonance_def block_index [OF v r] if_P [OF le] ..
  show "parameters (SetResonance r e w m) =
           (parameters m)[7 * (unat r + 1) :=
                dlog (dmul (dmul (Some d_const) (dpow (Some (mu_amu m)) (Some (- 3 / 2)))) (Some w)),
              7 * (unat r + 1) + 1 := Some (- 116045 / 10000 * e)]"
    unfolding eq using inb by (simp add: FixParameter_at del: of_nat_add of_nat_mult)
  show "fixedMask (SetResonance r e w m) =
           (fixedMask m)[7 * (unat r + 1) := True, 7 * (unat r + 1) + 1 := True]"
    unfolding eq using inb by (simp add: FixParameter_at del: of_nat_add of_nat_mult)
  show "refused (SetResonance r e w m) = refused m"
    unfolding eq using inb by (simp add: FixParameter_at del: of_nat_add of_nat_mult)
qed

text \<open>The indices that \<open>SetResonance\<close> computes for \<open>resonanceId = numResonances\<close>.\<close>

lemma last_index:
  assumes v: "valid_model m"
  shows "sint (7 * (numResonances m + 1) + 0 :: uint) = int (length (parameters m))"
    and "sint (7 * (numResonances m + 1) + 1 :: uint) = int (length (parameters m) + 1)"
proof -
  from v have fit: "7 * (unat (numResonances m) + 1) < 2 ^ 31"
    and len: "length (parameters m) = 7 * (unat (numResonances m) + 1)"
    by (simp_all add: valid_model_def)
  show "sint (7 * (numResonances m + 1) + 0 :: uint) = int (length (parameters m))"
    using sint_block [OF order_refl fit] by (simp add: len)
  show "sint (7 * (numResonances m + 1) + 1 :: uint) = int (length (parameters m) + 1)"
    using sint_block_last [OF fit] by (simp add: len)
qed

text \<open>
  At \<open>resonanceId = numResonances\<close> the guard lets the call through and both stores fall
  outside the vector.
\<close>

lemma SetResonance_last:
  assumes v: "valid_model m"
  shows "parameters (SetResonance (numResonances m) e w m) = parameters m"
    and "fixedMask (SetResonance (numResonances m) e w m) = fixedMask m"
    and "refused (SetResonance (numResonances m) e w m) =
           refused m @ [int (length (parameters m)), int (length (parameters m) + 1)]"
proof -
  let ?v0 = "dlog (dmul (dmul (Some d_const) (dpow (Some (mu_amu m)) (Some (- 3 / 2)))) (Some w))"
  let ?m1 = "FixParameter (int (length (parameters m))) ?v0 m"
  have eq: "SetResonance (numResonances m) e w m =
      FixParameter (int (length (parameters m) + 1)) (Some (- 116045 / 10000 * e)) ?m1"
    unfolding SetResonance_def last_index [OF v] by (simp only: order_refl if_True)
  have one: "parameters ?m1 = parameters m \<and> fixedMask ?m1 = fixedMask m \<and>
      refused ?m1 = refused m @ [int (length (parameters m))]"
    by (rule FixParameter_outside) simp
  have "length (parameters ?m1) \<le> length (parameters m) + 1" by simp
  from FixParameter_outside [OF this, of "Some (- 116045 / 10000 * e)"] one
  show "parameters (SetResonance (numResonances m) e w m) = parameters m"
    and "fixedMask (SetResonance (numResonances m) e w m) = fixedMask m"
    and "refused (SetResonance (numResonances m) e w m) =
           refused m @ [int (length (parameters m)), int (length (parameters m) + 1)]"
    unfolding eq by simp_all
qed

lemma SetResonance_outside:
  assumes v: "valid_model m" and r: "\<not> r < numResonances m"
  shows "parameters (SetResonance r e w m) = parameters m \<and>
         fixedMask (SetResonance r e w m) = fixedMask m"
proof (cases "r \<le> numResonances m")
  case True
  with r have "r = numResonances m" by simp
  then show ?thesis by (simp add: SetResonance_last [OF v])
next
  case False
  then show ?thesis by (simp add: SetResonance_def)
qed

section \<open>The inverse formulas of the getters\<close>

lemma GetParameter_low:
  assumes "valid_model m"
  shows "GetParameter m 0 = parameters m ! 0" and "GetParameter m 1 = parameters m ! 1"
    and "GetParameter m 2 = parameters m ! 2" and "GetParameter m 6 = parameters m ! 6"
  using valid_model_length [OF assms] by (auto simp add: GetParameter_def in_range_def)

lemma of_uint_pos: "w \<noteq> 0 \<Longrightarrow> 0 < real (unat w)" for w :: uint
proof -
  assume "w \<noteq> 0"
  then have "0 < unat w" by (simp add: unat_gt_0)
  then show ?thesis by (simp only: of_nat_0_less_iff)
qed

lemma unsigned_pos: "w \<noteq> 0 \<Longrightarrow> 0 < (unsigned w :: real)" for w :: uint
  using of_uint_pos [of w] by simp

lemma unsigned_nonzero: "w \<noteq> 0 \<Longrightarrow> (unsigned w :: real) \<noteq> 0" for w :: uint
  using unsigned_pos [of w] by simp

text \<open>The coefficient \<open>a2\<close> of the constructor, and its inverse in \<open>GetReducedMass\<close>.\<close>

lemma a2_value:
  assumes "w \<noteq> 0" and "0 < mu"
  shows "dmul (Some (- 42486 / 10000))
           (dpow (dmul (dpow (of_uint w) (Some 2)) (Some mu)) (Some (1 / 3))) =
         Some (- 42486 / 10000 * ((real (unat w) powr 2 * mu) powr (1 / 3)))"
proof -
  from assms have "0 < real (unat w)" by (simp add: unsigned_pos unsigned_nonzero)
  then have "0 < real (unat w) powr 2 * mu" using assms by simp
  with \<open>0 < real (unat w)\<close> show ?thesis by (simp add: of_uint_def dpow_pos)
qed

lemma GetReducedMass_inverse:
  assumes v: "valid_model m" and w: "z1 m * z2 m \<noteq> 0" and mu: "0 < mu"
    and a2: "parameters m ! 2 =
      dmul (Some (- 42486 / 10000))
        (dpow (dmul (dpow (of_uint (z1 m * z2 m)) (Some 2)) (Some mu)) (Some (1 / 3)))"
  shows "GetReducedMass m = Some mu"
proof -
  define Z where "Z = real (unat (z1 m * z2 m))"
  define X where "X = (Z powr 2 * mu) powr (1 / 3)"
  from w have Z: "0 < Z" by (simp add: Z_def unsigned_pos unsigned_nonzero)
  with mu have X: "0 < X" by (simp add: X_def)
  have X3: "X powr 3 = Z powr 2 * mu"
    using Z mu by (simp add: X_def powr_powr)
  have "GetParameter m 2 = Some (- 42486 / 10000 * X)"
    using a2_value [OF w mu] by (simp add: GetParameter_low [OF v] a2 X_def Z_def)
  then have "ddiv (GetParameter m 2) (Some (- 42486 / 10000)) = Some X"
    by (simp add: ddiv_Some)
  then have "dpow (ddiv (GetParameter m 2) (Some (- 42486 / 10000))) (Some 3) = Some (Z powr 2 * mu)"
    using X by (simp add: dpow_pos X3)
  moreover have "dpow (of_uint (z1 m * z2 m)) (Some 2) = Some (Z powr 2)"
    using Z by (simp add: of_uint_def dpow_pos Z_def)
  moreover have "Z powr 2 \<noteq> 0" using Z by simp
  ultimately show ?thesis
    by (simp add: GetReducedMass_def ddiv_Some)
qed

lemma scale_value:
  assumes "w \<noteq> 0" and "0 < mu"
  shows "dmul (Some b_const) (dpow (dmul (of_uint w) (Some mu)) (Some (1 / 3))) =
           Some (b_const * (real (unat w) * mu) powr (1 / 3))"
    and "0 < b_const * (real (unat w) * mu) powr (1 / 3)"
proof -
  from assms have "0 < real (unat w) * mu" by (simp add: unsigned_pos unsigned_nonzero)
  then show "dmul (Some b_const) (dpow (dmul (of_uint w) (Some mu)) (Some (1 / 3))) =
           Some (b_const * (real (unat w) * mu) powr (1 / 3))"
    and "0 < b_const * (real (unat w) * mu) powr (1 / 3)"
    using assms by (simp_all add: of_uint_def dpow_pos b_const_def unsigned_nonzero)
qed

lemma GetSFactor_inverse:
  assumes v: "valid_model m" and w: "z1 m * z2 m \<noteq> 0" and mu: "0 < mu" and s: "0 < s"
    and rm: "GetReducedMass m = Some mu"
    and a0: "parameters m ! 0 = dlog (dmul (nonresonant_scale (z1 m) (z2 m) mu) (Some s))"
  shows "GetSFactor m = Some s"
proof -
  define C where "C = (real (unat (z1 m * z2 m)) * mu) powr (1 / 3)"
  from w mu have C: "0 < C" by (simp add: C_def unsigned_pos unsigned_nonzero)
  have b: "0 < b_const" by (simp add: b_const_def)
  have sc: "nonresonant_scale (z1 m) (z2 m) mu = Some (b_const * C)"
    unfolding nonresonant_scale_def C_def by (rule scale_value [OF w mu])
  from b C s have pos: "0 < b_const * C * s" by simp
  have "GetParameter m 0 = Some (ln (b_const * C * s))"
    using pos by (simp add: GetParameter_low [OF v] a0 sc dlog_Some)
  then have "dexp (GetParameter m 0) = Some (b_const * C * s)"
    using pos by simp
  then have "ddiv (dexp (GetParameter m 0)) (Some b_const) = Some (C * s)"
    using b by (simp add: ddiv_Some)
  moreover have "dpow (dmul (of_uint (z1 m * z2 m)) (Some mu)) (Some (1 / 3)) = Some C"
    using w mu by (simp add: of_uint_def dpow_pos C_def unsigned_pos unsigned_nonzero)
  ultimately show ?thesis
    using C by (simp add: GetSFactor_def rm ddiv_Some)
qed

section \<open>Resonance identifiers out of range\<close>

lemma dmul_one [simp]: "dmul x (Some 1) = x"
  by (cases x) simp_all

text \<open>
  C7: for every model and every \<open>resonanceId > numResonances\<close>, \<open>GetResonanceEnergy\<close>
  and \<open>GetResonanceStrength\<close> both return \<open>-1\<close> (a value, not a failure).
\<close>

theorem getters_sentinel:
  "numResonances m < resonanceId \<Longrightarrow>
   GetResonanceEnergy m resonanceId = Some (- 1) \<and>
   GetResonanceStrength m resonanceId = Some (- 1)"
  by (simp add: GetResonanceEnergy_def GetResonanceStrength_def)

theorem getters_sentinel_witness:
  "GetResonanceEnergy
     \<lparr>parameters = replicate 7 (Some 0), fixedMask = replicate 7 False, refused = [],
      numResonances = 0, z1 = 1, z2 = 1, mu_amu = 1\<rparr> 1 = Some (- 1) \<and>
   GetResonanceStrength
     \<lparr>parameters = replicate 7 (Some 0), fixedMask = replicate 7 False, refused = [],
      numResonances = 0, z1 = 1, z2 = 1, mu_amu = 1\<rparr> 1 = Some (- 1)"
  using getters_sentinel
    [of "\<lparr>parameters = replicate 7 (Some 0), fixedMask = replicate 7 False, refused = [],
      numResonances = 0, z1 = 1, z2 = 1, mu_amu = 1\<rparr>" 1]
  by simp

text \<open>
  C3: on every model, \<open>SetResonance\<close> with a \<open>resonanceId\<close> outside
  \<open>[0, numResonances)\<close> changes no entry of the parameter vector or of the fixed mask.
\<close>

theorem SetResonance_out_of_range:
  "valid_model m \<Longrightarrow> \<not> resonanceId < numResonances m \<Longrightarrow>
   parameters (SetResonance resonanceId energy strength m) = parameters m \<and>
   fixedMask (SetResonance resonanceId energy strength m) = fixedMask m"
  by (simp add: SetResonance_outside)

theorem SetResonance_out_of_range_witness:
  "parameters (SetResonance 0 (1 / 10) (1 / 1000000)
      \<lparr>parameters = replicate 7 (Some 0), fixedMask = replicate 7 False, refused = [],
       numResonances = 0, z1 = 6, z2 = 1, mu_amu = 92 / 100\<rparr>) = replicate 7 (Some 0) \<and>
   fixedMask (SetResonance 0 (1 / 10) (1 / 1000000)
      \<lparr>parameters = replicate 7 (Some 0), fixedMask = replicate 7 False, refused = [],
       numResonances = 0, z1 = 6, z2 = 1, mu_amu = 92 / 100\<rparr>) = replicate 7 False"
  using SetResonance_out_of_range
    [of "\<lparr>parameters = replicate 7 (Some 0), fixedMask = replicate 7 False, refused = [],
       numResonances = 0, z1 = 6, z2 = 1, mu_amu = 92 / 100\<rparr>" 0 "1 / 10" "1 / 1000000"]
  by (simp add: valid_model_def)



section \<open>Reduced mass and S-factor round trips\<close>

text \<open>
  C5 as amended: for every construction with \<open>mu > 0\<close> and with \<open>z1\<close>, \<open>z2\<close> whose
  \<open>unsigned int\<close> product \<open>z1 * z2\<close> is not 0, \<open>GetReducedMass\<close> right after the
  construction returns \<open>mu\<close> (in exact arithmetic).
\<close>

theorem GetReducedMass_after_construct:
  assumes "ReaclibRate_new n za zb mu = Some m" and "za * zb \<noteq> 0" and "0 < mu"
  shows "GetReducedMass m = Some mu"
proof -
  note p = construct_props [OF assms(1)]
  show ?thesis
    by (rule GetReducedMass_inverse) (simp_all add: p assms)
qed

theorem GetReducedMass_after_construct_witness:
  "map_option GetReducedMass (ReaclibRate_new 1 6 1 (92 / 100)) = Some (Some (92 / 100))"
proof -
  obtain m where c: "ReaclibRate_new 1 6 1 (92 / 100) = Some m"
    using construct_Some [of 1 6 1 "92 / 100"] by auto
  have "GetReducedMass m = Some (92 / 100)"
    by (rule GetReducedMass_after_construct [OF c]) simp_all
  with c show ?thesis by simp
qed

text \<open>
  C5 as stated fails where the product of the charges wraps to 0: with
  \<open>z1 = z2 = 65536\<close> and \<open>mu = 1\<close> the coefficient \<open>a2\<close> is 0 and \<open>GetReducedMass\<close>
  divides 0 by 0.
\<close>

theorem GetReducedMass_wrapped_charges:
  "map_option GetReducedMass (ReaclibRate_new 0 65536 65536 1) = Some None"
proof -
  obtain m where c: "ReaclibRate_new 0 65536 65536 1 = Some m"
    using construct_Some [of 0 65536 65536 1] by auto
  note p = construct_props [OF c]
  have "dpow (of_uint (z1 m * z2 m)) (Some 2) = Some 0"
    by (simp add: p of_uint_def dpow_def)
  then have "GetReducedMass m = None"
    by (simp add: GetReducedMass_def)
  with c show ?thesis by simp
qed

text \<open>
  C10 as amended: for every construction with \<open>mu > 0\<close> and with \<open>z1\<close>, \<open>z2\<close> whose
  \<open>unsigned int\<close> product is not 0, \<open>GetSFactor\<close> right after the construction
  returns 1 (in exact arithmetic).
\<close>

theorem GetSFactor_after_construct:
  assumes "ReaclibRate_new n za zb mu = Some m" and "za * zb \<noteq> 0" and "0 < mu"
  shows "GetSFactor m = Some 1"
proof -
  note p = construct_props [OF assms(1)]
  have rm: "GetReducedMass m = Some mu"
    by (rule GetReducedMass_inverse) (simp_all add: p assms)
  show ?thesis
    by (rule GetSFactor_inverse [where mu = mu]) (simp_all add: p assms rm)
qed

theorem GetSFactor_after_construct_witness:
  "map_option GetSFactor (ReaclibRate_new 1 6 1 (92 / 100)) = Some (Some 1)"
proof -
  obtain m where c: "ReaclibRate_new 1 6 1 (92 / 100) = Some m"
    using construct_Some [of 1 6 1 "92 / 100"] by auto
  have "GetSFactor m = Some 1"
    by (rule GetSFactor_after_construct [OF c]) simp_all
  with c show ?thesis by simp
qed

text \<open>C10 as stated fails at \<open>z1 = z2 = 65536\<close>, \<open>mu = 1\<close>: no finite value comes back.\<close>

theorem GetSFactor_wrapped_charges:
  "map_option GetSFactor (ReaclibRate_new 0 65536 65536 1) = Some None"
proof -
  obtain m where c: "ReaclibRate_new 0 65536 65536 1 = Some m"
    using construct_Some [of 0 65536 65536 1] by auto
  note p = construct_props [OF c]
  have "dpow (of_uint (z1 m * z2 m)) (Some 2) = Some 0"
    by (simp add: p of_uint_def dpow_def)
  then have "GetReducedMass m = None"
    by (simp add: GetReducedMass_def)
  then have "GetSFactor m = None"
    by (simp add: GetSFactor_def)
  with c show ?thesis by simp
qed


section \<open>Setting a resonance and reading it back\<close>

text \<open>
  C1, at a failing input. The setter stores the resonance \<open>resonanceId\<close> in block
  \<open>resonanceId + 1\<close>; the getters read block \<open>resonanceId\<close>. After
  \<open>SetResonance(0, 0.5, 2)\<close> on the model built with one resonance, \<open>z1 = z2 = 1\<close> and
  \<open>mu = 1\<close>, \<open>GetResonanceEnergy(0)\<close> reads the \<open>a1\<close> of the non-resonant block and
  returns 0, not 0.5, and \<open>GetResonanceStrength(0)\<close> reads its \<open>a0\<close> and returns
  \<open>b_ / d_\<close>, not 2.
\<close>

theorem resonance_getters_read_previous_block:
  "map_option (\<lambda>m. (GetResonanceEnergy (SetResonance 0 (1 / 2) 2 m) 0,
                     GetResonanceStrength (SetResonance 0 (1 / 2) 2 m) 0))
     (ReaclibRate_new 1 1 1 1) = Some (Some 0, Some (b_const / d_const))"
proof -
  obtain m where c: "ReaclibRate_new 1 1 1 1 = Some m"
    using construct_Some [of 1 1 1 1] by auto
  note p = construct_props [OF c]
  let ?m = "SetResonance 0 (1 / 2) 2 m"
  have v: "valid_model ?m" using p(1) by (rule valid_model_SetResonance)
  have r: "0 < numResonances m" by (simp add: p)
  have len: "length (parameters m) = 14" using p(1) by (simp add: valid_model_def p)
  have low: "parameters ?m ! 0 = parameters m ! 0" "parameters ?m ! 1 = parameters m ! 1"
    "parameters ?m ! 2 = parameters m ! 2"
    by (simp_all add: SetResonance_inside [OF p(1) r])
  have e: "GetResonanceEnergy ?m 0 = Some 0"
    using low(2) p(7) by (simp add: GetResonanceEnergy_def p(2) GetParameter_low [OF v] ddiv_Some)
  have rm: "GetReducedMass ?m = Some 1"
    by (rule GetReducedMass_inverse [OF v]) (simp_all add: p low)
  have "parameters m ! 0 = Some (ln b_const)"
    by (simp add: p nonresonant_scale_def of_uint_def dpow_pos dlog_Some b_const_def)
  then have "GetParameter ?m 0 = Some (ln b_const)"
    by (simp add: GetParameter_low [OF v] low)
  then have s: "GetResonanceStrength ?m 0 = Some (b_const / d_const)"
    by (simp add: GetResonanceStrength_def p rm dpow_pos ddiv_Some b_const_def d_const_def)
  from c e s show ?thesis by simp
qed

section \<open>Sequences of setter calls and the fixed a6\<close>

lemma fields_apply_call [simp]:
  "numResonances (apply_call c m) = numResonances m"
  "z1 (apply_call c m) = z1 m" "z2 (apply_call c m) = z2 m"
  "mu_amu (apply_call c m) = mu_amu m"
  by (cases c; simp)+

lemma valid_model_apply_call: "valid_model m \<Longrightarrow> valid_model (apply_call c m)"
  by (cases c) (simp_all add: valid_model_SetSFactor valid_model_SetResonance)

text \<open>The setters store at indices that are 0 or 1 modulo 7 only.\<close>

lemma apply_call_frame:
  assumes v: "valid_model m" and k: "k mod 7 \<noteq> 0" "k mod 7 \<noteq> 1"
  shows "parameters (apply_call c m) ! k = parameters m ! k \<and>
         fixedMask (apply_call c m) ! k = fixedMask m ! k"
proof (cases c)
  case (SetSFactor_call s)
  from k have "k \<noteq> 0" by auto
  then show ?thesis by (simp add: SetSFactor_call SetSFactor_lists [OF v])
next
  case (SetResonance_call r e w)
  show ?thesis
  proof (cases "r < numResonances m")
    case True
    from k have "k \<noteq> 7 * (unat r + 1)" "k \<noteq> 7 * (unat r + 1) + 1" by presburger+
    then show ?thesis
      by (simp add: SetResonance_call SetResonance_inside [OF v True] del: mult_Suc_right)
  next
    case False
    then show ?thesis by (simp add: SetResonance_call SetResonance_outside [OF v])
  qed
qed

lemma apply_calls_frame:
  "valid_model m \<Longrightarrow> k mod 7 \<noteq> 0 \<Longrightarrow> k mod 7 \<noteq> 1 \<Longrightarrow>
   valid_model (apply_calls cs m) \<and>
   numResonances (apply_calls cs m) = numResonances m \<and>
   parameters (apply_calls cs m) ! k = parameters m ! k \<and>
   fixedMask (apply_calls cs m) ! k = fixedMask m ! k"
proof (induction cs arbitrary: m)
  case Nil
  then show ?case by (simp add: apply_calls_def)
next
  case (Cons c cs)
  from Cons.prems(1) have v: "valid_model (apply_call c m)" by (rule valid_model_apply_call)
  from Cons.IH [OF v Cons.prems(2,3)] apply_call_frame [OF Cons.prems, of c]
  show ?case by (simp add: apply_calls_def)
qed

lemma a6_fixed_lists:
  assumes v: "valid_model m"
    and "parameters m ! 6 = Some (- 2 / 3)" and "fixedMask m ! 6"
    and "\<And>i. i < unat (numResonances m) \<Longrightarrow>
           parameters m ! (7 * (i + 1) + 6) = Some (- 3 / 2) \<and> fixedMask m ! (7 * (i + 1) + 6)"
  shows "a6_fixed m"
proof -
  from v have len: "length (parameters m) = 7 * (unat (numResonances m) + 1)"
    and lenf: "length (fixedMask m) = length (parameters m)"
    by (simp_all add: valid_model_def)
  have get: "GetParameter m (int k) = parameters m ! k \<and>
      (IsFixed m (int k) \<longleftrightarrow> fixedMask m ! k)"
    if "k < length (parameters m)" for k
    using that by (simp add: GetParameter_def IsFixed_def in_range_def lenf)
  have "6 < length (parameters m)" by (simp add: len)
  from get [OF this] assms(2,3)
  have a: "GetParameter m 6 = Some (- 2 / 3) \<and> IsFixed m 6" by simp
  have b: "GetParameter m (int (7 * (i + 1) + 6)) = Some (- 3 / 2) \<and>
      IsFixed m (int (7 * (i + 1) + 6))" if "i < unat (numResonances m)" for i
  proof -
    from that have "7 * (i + 1) + 6 < length (parameters m)" by (simp add: len)
    from get [OF this] assms(4) [OF that] show ?thesis by simp
  qed
  from a b show ?thesis unfolding a6_fixed_def by blast
qed

text \<open>
  C9: after the construction and any sequence of \<open>SetSFactor\<close> and \<open>SetResonance\<close>
  calls, the \<open>a6\<close> of every resonance block is \<open>-3/2\<close> and fixed, and the \<open>a6\<close> of the
  non-resonant block is \<open>-2/3\<close> and fixed.
\<close>

theorem a6_stays_fixed:
  assumes "ReaclibRate_new n za zb mu = Some m"
  shows "a6_fixed (apply_calls cs m)"
proof -
  note p = construct_props [OF assms]
  have f6: "valid_model (apply_calls cs m) \<and> numResonances (apply_calls cs m) = numResonances m \<and>
      parameters (apply_calls cs m) ! 6 = parameters m ! 6 \<and>
      fixedMask (apply_calls cs m) ! 6 = fixedMask m ! 6"
    by (rule apply_calls_frame [OF p(1)]) simp_all
  have fi: "parameters (apply_calls cs m) ! (7 * (i + 1) + 6) = parameters m ! (7 * (i + 1) + 6) \<and>
      fixedMask (apply_calls cs m) ! (7 * (i + 1) + 6) = fixedMask m ! (7 * (i + 1) + 6)" for i
    using apply_calls_frame [OF p(1), of "7 * (i + 1) + 6" cs] by (simp add: mod_simps)
  show ?thesis
  proof (rule a6_fixed_lists)
    show "valid_model (apply_calls cs m)" using f6 by simp
    show "parameters (apply_calls cs m) ! 6 = Some (- 2 / 3)" using f6 p by simp
    show "fixedMask (apply_calls cs m) ! 6" using f6 p by simp
    fix i
    assume "i < unat (numResonances (apply_calls cs m))"
    then have "i < unat n" using f6 p by simp
    from p(11) [OF this] fi [of i]
    show "parameters (apply_calls cs m) ! (7 * (i + 1) + 6) = Some (- 3 / 2) \<and>
        fixedMask (apply_calls cs m) ! (7 * (i + 1) + 6)"
      by simp
  qed
qed

theorem a6_stays_fixed_witness:
  "map_option (a6_fixed \<circ> apply_calls [SetSFactor_call (1 / 2), SetResonance_call 0 (1 / 10) (1 / 1000000)])
     (ReaclibRate_new 1 6 1 (92 / 100)) = Some True"
proof -
  obtain m where c: "ReaclibRate_new 1 6 1 (92 / 100) = Some m"
    using construct_Some [of 1 6 1 "92 / 100"] by auto
  from a6_stays_fixed [OF c] c show ?thesis by simp
qed

lemma fields_apply_calls [simp]:
  "z1 (apply_calls cs m) = z1 m" "z2 (apply_calls cs m) = z2 m"
  "mu_amu (apply_calls cs m) = mu_amu m"
  unfolding apply_calls_def by (induction cs arbitrary: m; simp)+

text \<open>
  C6 as amended: on every model constructed with \<open>mu > 0\<close> and a non-zero
  \<open>unsigned int\<close> product \<open>z1 * z2\<close>, whatever setter calls came before,
  \<open>SetSFactor(s)\<close> with \<open>s > 0\<close> followed by \<open>GetSFactor\<close> returns \<open>s\<close> (in exact
  arithmetic).
\<close>

theorem SetSFactor_GetSFactor:
  assumes "ReaclibRate_new n za zb mu = Some m" and "za * zb \<noteq> 0" and "0 < mu" and "0 < s"
  shows "GetSFactor (SetSFactor s (apply_calls cs m)) = Some s"
proof -
  note p = construct_props [OF assms(1)]
  let ?m = "apply_calls cs m"
  have f: "valid_model ?m \<and> numResonances ?m = numResonances m \<and>
      parameters ?m ! 2 = parameters m ! 2 \<and> fixedMask ?m ! 2 = fixedMask m ! 2"
    by (rule apply_calls_frame [OF p(1)]) simp_all
  then have v: "valid_model (SetSFactor s ?m)" by (simp add: valid_model_SetSFactor)
  have "7 \<le> length (parameters ?m)" using f by (simp add: valid_model_length)
  then have ne: "parameters ?m \<noteq> []" by auto
  have rm: "GetReducedMass (SetSFactor s ?m) = Some mu"
    using ne f by (intro GetReducedMass_inverse v) (simp_all add: p assms SetSFactor_lists)
  show ?thesis
    using ne f
    by (intro GetSFactor_inverse [where mu = mu] v rm)
       (simp_all add: p assms SetSFactor_lists)
qed

theorem SetSFactor_GetSFactor_witness:
  "map_option
     (GetSFactor \<circ> SetSFactor (1 / 2) \<circ> apply_calls [SetResonance_call 0 (1 / 10) (1 / 1000000)])
     (ReaclibRate_new 1 6 1 (92 / 100)) = Some (Some (1 / 2))"
proof -
  obtain m where c: "ReaclibRate_new 1 6 1 (92 / 100) = Some m"
    using construct_Some [of 1 6 1 "92 / 100"] by auto
  have "GetSFactor (SetSFactor (1 / 2)
      (apply_calls [SetResonance_call 0 (1 / 10) (1 / 1000000)] m)) = Some (1 / 2)"
    by (rule SetSFactor_GetSFactor [OF c]) simp_all
  with c show ?thesis by simp
qed

text \<open>C6 as stated fails at \<open>z1 = z2 = 65536\<close>, \<open>mu = 1\<close>, \<open>s = 1/2\<close>.\<close>

theorem SetSFactor_wrapped_charges:
  "map_option (GetSFactor \<circ> SetSFactor (1 / 2)) (ReaclibRate_new 0 65536 65536 1) = Some None"
proof -
  obtain m where c: "ReaclibRate_new 0 65536 65536 1 = Some m"
    using construct_Some [of 0 65536 65536 1] by auto
  note p = construct_props [OF c]
  have "dpow (of_uint (z1 (SetSFactor (1 / 2) m) * z2 (SetSFactor (1 / 2) m))) (Some 2) = Some 0"
    by (simp add: p of_uint_def dpow_def)
  then have "GetReducedMass (SetSFactor (1 / 2) m) = None"
    by (simp add: GetReducedMass_def)
  then have "GetSFactor (SetSFactor (1 / 2) m) = None"
    by (simp add: GetSFactor_def)
  with c show ?thesis by simp
qed

section \<open>Evaluate\<close>

lemma dadd_None [simp]: "dadd None y = None" "dadd x None = None"
  by (simp_all add: dadd_def split: option.splits)

lemma dadd_zero [simp]: "dadd r (Some 0) = r"
  by (cases r) simp_all

lemma dadd_assoc_Some: "dadd (dadd r (Some a)) (Some c) = dadd r (Some (a + c))"
  by (cases r) (simp_all add: add.assoc)

lemma par_at_block:
  assumes "unat i \<le> unat n" and "7 * (unat n + 1) < 2 ^ 31"
    and "length ps = 7 * (unat n + 1)" and "unat k \<le> 6"
  shows "par_at (map Some ps) (7 * i + k) = Some (ps ! (7 * unat i + unat k))"
proof -
  have "unat (7 * i + k :: uint) = 7 * unat i + unat k"
    using assms by (simp add: unat_word_ariths)
  moreover have "7 * unat i + unat k < length ps" using assms by simp
  ultimately show ?thesis by (simp add: par_at_def)
qed

lemma component_loop_unroll:
  "component_loop 1 i t9 par c =
     dadd (dadd (dadd (dadd (dadd c
       (dmul (par_at par (7 * i + 1)) (dpow (Some t9) (Some (- 1)))))
       (dmul (par_at par (7 * i + 2)) (dpow (Some t9) (Some (- 1 / 3)))))
       (dmul (par_at par (7 * i + 3)) (dpow (Some t9) (Some (1 / 3)))))
       (dmul (par_at par (7 * i + 4)) (dpow (Some t9) (Some 1))))
       (dmul (par_at par (7 * i + 5)) (dpow (Some t9) (Some (5 / 3))))"
  by (simp add: component_loop.simps)

lemma sum_1_5: "(\<Sum>j = 1..5. f j) = f 1 + f 2 + f 3 + f 4 + f (5::nat)" for f :: "nat \<Rightarrow> real"
proof -
  have "{1..5::nat} = {1, 2, 3, 4, 5}" by auto
  then show ?thesis by simp
qed

lemma block_value:
  assumes i: "unat i \<le> unat n" and fit: "7 * (unat n + 1) < 2 ^ 31"
    and len: "length ps = 7 * (unat n + 1)" and t9: "0 < t9"
  shows "component_loop 1 i t9 (map Some ps)
            (dadd (par_at (map Some ps) (7 * i + 0))
               (dmul (par_at (map Some ps) (7 * i + 6)) (dlog (Some t9)))) =
         Some (component_spec ps (unat i) t9)"
proof -
  note at = par_at_block [OF i fit len]
  have a0: "par_at (map Some ps) (7 * i + 0) = Some (ps ! (7 * unat i + 0))"
    using at [of 0] by simp
  have a1: "par_at (map Some ps) (7 * i + 1) = Some (ps ! (7 * unat i + 1))"
    using at [of 1] by simp
  have a2: "par_at (map Some ps) (7 * i + 2) = Some (ps ! (7 * unat i + 2))"
    using at [of 2] by simp
  have a3: "par_at (map Some ps) (7 * i + 3) = Some (ps ! (7 * unat i + 3))"
    using at [of 3] by simp
  have a4: "par_at (map Some ps) (7 * i + 4) = Some (ps ! (7 * unat i + 4))"
    using at [of 4] by simp
  have a5: "par_at (map Some ps) (7 * i + 5) = Some (ps ! (7 * unat i + 5))"
    using at [of 5] by simp
  have a6: "par_at (map Some ps) (7 * i + 6) = Some (ps ! (7 * unat i + 6))"
    using at [of 6] by simp
  show ?thesis
    unfolding component_loop_unroll a0 a1 a2 a3 a4 a5 a6 component_spec_def sum_1_5
    using t9 by (simp add: dpow_pos dlog_Some)
qed

lemma unat_succ_numResonances:
  "7 * (unat n + 1) < 2 ^ 31 \<Longrightarrow> unat (n + 1 :: uint) = unat n + 1"
  by (simp add: unat_word_ariths)

text \<open>
  The loop adds up the exponentials of the components, whatever the exponential \<open>ex\<close> of
  the arithmetic computes on a real (\<open>g\<close>).
\<close>

lemma rate_loop_sum:
  "(\<And>a. ex (Some a) = Some (g a)) \<Longrightarrow>
   7 * (unat (numResonances m) + 1) < 2 ^ 31 \<Longrightarrow>
   length ps = 7 * (unat (numResonances m) + 1) \<Longrightarrow> 0 < t9 \<Longrightarrow>
   par = map Some ps \<Longrightarrow> unat i \<le> unat (numResonances m) + 1 \<Longrightarrow>
   rate_loop ex i m t9 par r =
     dadd r (Some (\<Sum>k = unat i..unat (numResonances m). g (component_spec ps k t9)))"
proof (induction ex i m t9 par r rule: rate_loop.induct)
  case (1 ex i m t9 par r)
  let ?n = "numResonances m"
  let ?f = "\<lambda>k. g (component_spec ps k t9)"
  have suc: "unat (?n + 1) = unat ?n + 1"
    using "1.prems"(2) by (rule unat_succ_numResonances)
  show ?case
  proof (cases "i < ?n + 1")
    case True
    then have le: "unat i \<le> unat ?n" by (simp add: word_less_nat_alt suc)
    from True have inc: "unat (i + 1) = unat i + 1" by (rule unat_inc)
    have "component_loop 1 i t9 par
            (dadd (par_at par (7 * i + 0)) (dmul (par_at par (7 * i + 6)) (dlog (Some t9)))) =
         Some (component_spec ps (unat i) t9)"
      unfolding \<open>par = map Some ps\<close>
      by (rule block_value [OF le "1.prems"(2,3,4)])
    then have blk: "ex (component_loop 1 i t9 par
            (dadd (par_at par (7 * i + 0)) (dmul (par_at par (7 * i + 6)) (dlog (Some t9))))) =
         Some (?f (unat i))"
      by (simp only: "1.prems"(1))
    have "rate_loop ex i m t9 par r =
        rate_loop ex (i + 1) m t9 par (dadd r (Some (?f (unat i))))"
      using True by (subst rate_loop.simps) (simp only: blk if_True)
    also have "\<dots> = dadd (dadd r (Some (?f (unat i))))
        (Some (\<Sum>k = unat (i + 1)..unat ?n. ?f k))"
      using True "1.prems" le inc
      by (intro "1.IH" [unfolded blk]) simp_all
    also have "\<dots> = dadd r (Some (\<Sum>k = unat i..unat ?n. ?f k))"
      using le by (simp add: dadd_assoc_Some inc sum.atLeast_Suc_atMost)
    finally show ?thesis .
  next
    case False
    then have "unat ?n + 1 \<le> unat i" by (simp add: word_less_nat_alt suc)
    with "1.prems" have "{unat i..unat ?n} = {}" by simp
    then show ?thesis using False by (subst rate_loop.simps) simp
  qed
qed

lemma Evaluate_with_value:
  assumes "\<And>a. ex (Some a) = Some (g a)"
    and "valid_model m" and "0 < t9" and "length ps = 7 * (unat (numResonances m) + 1)"
  shows "Evaluate_with ex m t9 (map Some ps) =
           Some (\<Sum>i = 0..unat (numResonances m). g (component_spec ps i t9))"
proof -
  from assms(2) have fit: "7 * (unat (numResonances m) + 1) < 2 ^ 31"
    by (simp add: valid_model_def)
  have "rate_loop ex 0 m t9 (map Some ps) (Some 0) =
      dadd (Some 0)
        (Some (\<Sum>k = unat (0 :: uint)..unat (numResonances m). g (component_spec ps k t9)))"
    by (rule rate_loop_sum [where ex = ex and g = g, OF assms(1) fit assms(4,3)]) simp_all
  then show ?thesis by (simp add: Evaluate_with_def)
qed

lemma sum_Suc0_5:
  "(\<Sum>j = Suc 0..5. f j) = f (Suc 0) + f 2 + f 3 + f 4 + f (5::nat)" for f :: "nat \<Rightarrow> real"
  using sum_1_5 [of f] by simp

lemma Evaluate_value:
  assumes "valid_model m" and "0 < t9" and "length ps = 7 * (unat (numResonances m) + 1)"
  shows "Evaluate m t9 (map Some ps) = Some (Evaluate_spec (unat (numResonances m)) t9 ps)"
  unfolding Evaluate_def Evaluate_spec_def
  by (rule Evaluate_with_value [where ex = dexp and g = exp, OF _ assms]) simp

text \<open>
  C2: for every \<open>t9 > 0\<close> and every parameter vector of length
  \<open>7 * (numResonances + 1)\<close>, \<open>Evaluate\<close> returns the sum over the blocks
  \<open>i = 0..numResonances\<close> of \<open>exp(a(i,0) + a(i,6) * ln(t9) + sum over j = 1..5 of
  a(i,j) * t9^((2j-5)/3))\<close>, with \<open>a(i,j)\<close> the parameter at index \<open>7 * i + j\<close>.
\<close>

theorem Evaluate_refines_spec:
  "valid_model m \<Longrightarrow> 0 < t9 \<Longrightarrow> length ps = 7 * (unat (numResonances m) + 1) \<Longrightarrow>
   Evaluate m t9 (map Some ps) = Some (Evaluate_spec (unat (numResonances m)) t9 ps)"
  by (rule Evaluate_value)

theorem Evaluate_refines_spec_witness:
  "Evaluate
     \<lparr>parameters = replicate 14 (Some 0), fixedMask = replicate 14 False, refused = [],
      numResonances = 1, z1 = 6, z2 = 1, mu_amu = 92 / 100\<rparr> 1
     (map Some [0, 1, 2, 3, 4, 5, 6, 0, 0, 0, 0, 0, 0, 0]) = Some (exp 15 + 1)"
  using Evaluate_refines_spec
    [of "\<lparr>parameters = replicate 14 (Some 0), fixedMask = replicate 14 False, refused = [],
      numResonances = 1, z1 = 6, z2 = 1, mu_amu = 92 / 100\<rparr>" 1
      "[0, 1, 2, 3, 4, 5, 6, 0, 0, 0, 0, 0, 0, 0]"]
  by (simp add: valid_model_def Evaluate_spec_def component_spec_def sum_Suc0_5)

text \<open>In exact arithmetic the rate is strictly positive: it is a sum of exponentials.\<close>

lemma Evaluate_positive_exact:
  "valid_model m \<Longrightarrow> 0 < t9 \<Longrightarrow> length ps = 7 * (unat (numResonances m) + 1) \<Longrightarrow>
   \<exists>r. Evaluate m t9 (map Some ps) = Some r \<and> 0 < r"
proof -
  assume a: "valid_model m" "0 < t9" "length ps = 7 * (unat (numResonances m) + 1)"
  have "0 < (\<Sum>i = 0..unat (numResonances m). exp (component_spec ps i t9))"
    by (rule sum_pos) simp_all
  with Evaluate_value [OF a] show ?thesis by (simp add: Evaluate_spec_def)
qed





end
